theory Spec2Isabelle
  imports Main "HOL-Library.Char_ord" "HOL-Library.List_Lexorder" "HOL-Library.Multiset"
begin

section \<open>zip2gif: archives of JPEG frames to animated GIFs\<close>

text \<open>
  The program is one Python file, \<^verbatim>\<open>app.py\<close>, with three functions:
  \<^verbatim>\<open>find_ms_in_filename\<close>, \<^verbatim>\<open>process_zip_file\<close> and \<^verbatim>\<open>process_folder\<close>.
  Python strings are modelled as Isabelle strings, with the order of
  \<^verbatim>\<open>str.__lt__\<close> (lexicographic, by character code); Python integers as \<open>int\<close>.
\<close>

subsection \<open>The interval extractor\<close>

text \<open>
  \<^verbatim>\<open>
  def find_ms_in_filename(filename):
      match = re.search(r'@(\d+)ms', filename)
      if match:
          return int(match.group(1))
      return 40
  \<close>
  The class \<^verbatim>\<open>\d\<close> is taken as the ten digits \<^verbatim>\<open>0\<close> to \<^verbatim>\<open>9\<close>.
\<close>

type_synonym path = string

definition is_digit :: "char \<Rightarrow> bool" where
  "is_digit c \<longleftrightarrow> CHR ''0'' \<le> c \<and> c \<le> CHR ''9''"

definition digit_val :: "char \<Rightarrow> int" where
  "digit_val c = int (of_char c) - 48"

text \<open>\<^verbatim>\<open>int(s)\<close> on a string of digits: base ten, most significant digit first, unbounded.\<close>

definition py_int :: "string \<Rightarrow> int" where
  "py_int s = foldl (\<lambda>n c. 10 * n + digit_val c) 0 s"

text \<open>
  The pattern \<^verbatim>\<open>@(\d+)ms\<close> tried at the start of a string; the result is group 1.
  \<^verbatim>\<open>\d+\<close> is greedy and takes the whole run of digits; giving digits back never helps,
  since the next pattern character \<^verbatim>\<open>m\<close> is not a digit.
\<close>

definition match_here :: "string \<Rightarrow> string option" where
  "match_here s =
     (case s of
        [] \<Rightarrow> None
      | c # rest \<Rightarrow>
          if c = CHR ''@'' then
            (let ds = takeWhile is_digit rest; after = dropWhile is_digit rest
             in if ds \<noteq> [] \<and> take 2 after = ''ms'' then Some ds else None)
          else None)"

text \<open>\<^verbatim>\<open>re.search\<close>: the match at the leftmost position where the pattern matches.\<close>

fun re_search :: "string \<Rightarrow> string option" where
  "re_search [] = None"
| "re_search (c # cs) =
     (case match_here (c # cs) of
        Some g \<Rightarrow> Some g
      | None \<Rightarrow> re_search cs)"

definition find_ms_in_filename :: "string \<Rightarrow> int" where
  "find_ms_in_filename filename =
     (case re_search filename of
        Some g \<Rightarrow> py_int g
      | None \<Rightarrow> 40)"

text \<open>
  What the claims call a substring of the form \<^verbatim>\<open>@<digits>ms\<close>: at offset \<open>i\<close> of \<open>s\<close>
  stand an at-sign, the non-empty digit string \<open>ds\<close>, and \<^verbatim>\<open>ms\<close>.
\<close>

definition has_interval_at :: "string \<Rightarrow> nat \<Rightarrow> string \<Rightarrow> bool" where
  "has_interval_at s i ds \<longleftrightarrow>
     ds \<noteq> [] \<and> list_all is_digit ds \<and>
     take (length ds + 3) (drop i s) = CHR ''@'' # ds @ ''ms''"

subsection \<open>String and path functions of the standard library\<close>

text \<open>
  \<^verbatim>\<open>str.lower\<close>, \<^verbatim>\<open>str.startswith\<close>, \<^verbatim>\<open>str.endswith\<close> and the functions of
  \<^verbatim>\<open>os.path\<close> the program calls, in their POSIX form (separator \<^verbatim>\<open>/\<close>).
\<close>

definition lower_char :: "char \<Rightarrow> char" where
  "lower_char c =
     (if CHR ''A'' \<le> c \<and> c \<le> CHR ''Z'' then char_of (of_char c + (32::nat)) else c)"

definition lower :: "string \<Rightarrow> string" where
  "lower s = map lower_char s"

definition startswith :: "string \<Rightarrow> string \<Rightarrow> bool" where
  "startswith s pre \<longleftrightarrow> take (length pre) s = pre"

definition endswith :: "string \<Rightarrow> string \<Rightarrow> bool" where
  "endswith s suf \<longleftrightarrow> take (length suf) (rev s) = rev suf"

text \<open>\<^verbatim>\<open>i = p.rfind('/') + 1; return p[i:]\<close>\<close>

definition os_path_basename :: "path \<Rightarrow> path" where
  "os_path_basename p = rev (takeWhile (\<lambda>c. c \<noteq> CHR ''/'') (rev p))"

text \<open>
  \<^verbatim>\<open>head = p[:i]\<close>, and \<^verbatim>\<open>head.rstrip('/')\<close> unless \<^verbatim>\<open>head\<close> is empty or all slashes.
\<close>

definition os_path_dirname :: "path \<Rightarrow> path" where
  "os_path_dirname p =
     (let head = rev (dropWhile (\<lambda>c. c \<noteq> CHR ''/'') (rev p))
      in if head \<noteq> [] \<and> \<not> list_all (\<lambda>c. c = CHR ''/'') head
         then rev (dropWhile (\<lambda>c. c = CHR ''/'') (rev head))
         else head)"

text \<open>
  The split is at the last dot, when that dot comes after the last separator and
  some character between the two is not a dot; otherwise the extension is empty.
\<close>

definition os_path_splitext :: "path \<Rightarrow> path \<times> string" where
  "os_path_splitext p =
     (let ext = rev (takeWhile (\<lambda>c. c \<noteq> CHR ''.'') (rev p));
          root = take (length p - length ext - 1) p
      in if CHR ''.'' \<in> set p \<and> CHR ''/'' \<notin> set ext
            \<and> \<not> list_all (\<lambda>c. c = CHR ''.'') (os_path_basename root)
         then (root, drop (length root) p)
         else (p, []))"

definition os_path_join :: "path \<Rightarrow> path \<Rightarrow> path" where
  "os_path_join a b =
     (if startswith b ''/'' then b
      else if a = [] \<or> endswith a ''/'' then a @ b
      else a @ ''/'' @ b)"

subsection \<open>The archive processor\<close>

text \<open>
  An exception of class \<^verbatim>\<open>Exception\<close>, with the text \<^verbatim>\<open>str(e)\<close> gives. Every error of
  the file system, of \<^verbatim>\<open>zipfile\<close> and of the image library is of that class.
\<close>

datatype py_exception = Exception (exn_str: string)

text \<open>
  The result of \<^verbatim>\<open>process_zip_file\<close> is the tuple \<^verbatim>\<open>(zip_path, status, message)\<close>. The
  status strings are \<^verbatim>\<open>"success"\<close>, \<^verbatim>\<open>"skip"\<close>, \<^verbatim>\<open>"warning"\<close> and \<^verbatim>\<open>"error"\<close>. The
  messages are fixed texts, the output path, a formatted text naming an image file, or
  the text of a caught exception:
  \<^item> \<open>GifExists\<close>: the GIF for this archive already exists;
  \<^item> \<open>NoJpgFound\<close>: no JPG file was found;
  \<^item> \<open>CannotProcessImage jpg_file text\<close>: cannot process image \<^verbatim>\<open>{jpg_file}: {e}\<close>;
  \<^item> \<open>NoUsableImages\<close>: no usable image;
  \<^item> \<open>GifPath gif_path\<close>: the path written, on success;
  \<^item> \<open>ExceptionText text\<close>: \<^verbatim>\<open>str(e)\<close> of the exception caught by the outer handler.
\<close>

datatype status = Success | Skip | Warning | Error

datatype message =
    GifExists
  | NoJpgFound
  | CannotProcessImage path string
  | NoUsableImages
  | GifPath path
  | ExceptionText string

type_synonym outcome = "path \<times> status \<times> message"

text \<open>
  The arguments of \<^verbatim>\<open>images[0].save(gif_path, save_all=True, append_images=images[1:],
  duration=ms_duration, loop=0, disposal=2)\<close>. In a GIF, loop count 0 repeats for ever
  and disposal method 2 restores the canvas to the background before the next frame.
\<close>

record 'img save_call =
  first_image :: 'img
  fp :: path
  save_all :: bool
  append_images :: "'img list"
  duration :: int
  loop :: int
  disposal :: int

text \<open>The calls to the outside that one invocation makes, in order.\<close>

datatype 'img event =
    MkTemp path
  | ExtractAll path path
  | Walk path
  | ImageOpen path
  | ImageSave "'img save_call"

text \<open>
  The outside world as one invocation meets it:
  \<^item> \<open>mkdtemp dir\<close>: \<^verbatim>\<open>tempfile.TemporaryDirectory(prefix="gif_frames_", dir=dir)\<close>, the
    new directory or the exception raised;
  \<^item> \<open>extractall zip_path temp_dir\<close>: \<^verbatim>\<open>zipfile.ZipFile(zip_path, 'r')\<close> and
    \<^verbatim>\<open>extractall(temp_dir)\<close>, the exception raised if any;
  \<^item> \<open>os_walk temp_dir\<close>: the triples \<^verbatim>\<open>(root, dirs, files)\<close> of \<^verbatim>\<open>os.walk\<close>, which
    raises nothing (its \<^verbatim>\<open>onerror\<close> is left unset);
  \<^item> \<open>image_open jpg_file\<close>: \<^verbatim>\<open>Image.open(jpg_file)\<close> and \<^verbatim>\<open>img.copy()\<close>, the decoded
    image or the exception raised;
  \<^item> \<open>image_save call\<close>: the \<^verbatim>\<open>save\<close> call, the exception raised if any.

  Leaving the \<^verbatim>\<open>with\<close> block removes the scratch directory on every path; the removal
  is taken to succeed, as the contract of the scratch facility has it. The files that
  \<^verbatim>\<open>os.path.exists\<close> sees are a set of paths; a \<^verbatim>\<open>save\<close> that returns adds its path,
  and one that raises leaves no file behind.
\<close>

record 'img env =
  mkdtemp :: "path \<Rightarrow> py_exception + path"
  extractall :: "path \<Rightarrow> path \<Rightarrow> py_exception option"
  os_walk :: "path \<Rightarrow> (path \<times> path list \<times> path list) list"
  image_open :: "path \<Rightarrow> py_exception + 'img"
  image_save :: "'img save_call \<Rightarrow> py_exception option"

text \<open>
  \<^verbatim>\<open>gif_filename = os.path.splitext(os.path.basename(zip_path))[0] + ".gif"\<close> and
  \<^verbatim>\<open>gif_path = os.path.join(os.path.dirname(zip_path), gif_filename)\<close>.
\<close>

definition gif_path_of :: "path \<Rightarrow> path" where
  "gif_path_of zip_path =
     (let gif_filename = fst (os_path_splitext (os_path_basename zip_path)) @ ''.gif''
      in os_path_join (os_path_dirname zip_path) gif_filename)"

definition is_jpg :: "string \<Rightarrow> bool" where
  "is_jpg file \<longleftrightarrow> endswith (lower file) ''.jpg'' \<or> endswith (lower file) ''.jpeg''"

text \<open>
  \<^verbatim>\<open>
  for root, _, files in os.walk(temp_dir):
      for file in files:
          if file.lower().endswith(('.jpg', '.jpeg')):
              jpg_files.append(os.path.join(root, file))
  \<close>
\<close>

definition find_jpg_files :: "(path \<times> path list \<times> path list) list \<Rightarrow> path list" where
  "find_jpg_files walk =
     concat (map (\<lambda>(root, dirs, files). map (os_path_join root) (filter is_jpg files)) walk)"

text \<open>
  \<^verbatim>\<open>
  for jpg_file in jpg_files:
      try:
          with Image.open(jpg_file) as img:
              images.append(img.copy())
      except Exception as e:
          return (zip_path, "error", f"... {jpg_file}: {e}")
  \<close>
  The loop returns the file and the exception of the first failure, or all the images;
  with either, the files it tried to open.
\<close>

fun open_images ::
  "'img env \<Rightarrow> path list \<Rightarrow> 'img list \<Rightarrow> path list
     \<Rightarrow> ((path \<times> py_exception) + 'img list) \<times> path list" where
  "open_images env [] images tried = (Inr images, tried)"
| "open_images env (jpg_file # rest) images tried =
     (case image_open env jpg_file of
        Inl e \<Rightarrow> (Inl (jpg_file, e), tried @ [jpg_file])
      | Inr img \<Rightarrow> open_images env rest (images @ [img]) (tried @ [jpg_file]))"

text \<open>
  The body of the \<^verbatim>\<open>with tempfile.TemporaryDirectory(...) as temp_dir\<close> block. The result
  is the value returned or the exception raised, the calls made, and the files that
  exist afterwards.
\<close>

definition process_in_temp_dir ::
  "'img env \<Rightarrow> path set \<Rightarrow> path \<Rightarrow> path \<Rightarrow> int \<Rightarrow> path
     \<Rightarrow> (py_exception + outcome) \<times> 'img event list \<times> path set" where
  "process_in_temp_dir env fs zip_path gif_path ms_duration temp_dir =
     (case extractall env zip_path temp_dir of
        Some e \<Rightarrow> (Inl e, [ExtractAll zip_path temp_dir], fs)
      | None \<Rightarrow>
          let jpg_files = find_jpg_files (os_walk env temp_dir);
              calls = [ExtractAll zip_path temp_dir, Walk temp_dir]
          in if jpg_files = [] then (Inr (zip_path, Warning, NoJpgFound), calls, fs)
             else
               let jpg_files = sort jpg_files
               in case open_images env jpg_files [] [] of
                    (Inl (jpg_file, e), tried) \<Rightarrow>
                      (Inr (zip_path, Error, CannotProcessImage jpg_file (exn_str e)),
                       calls @ map ImageOpen tried, fs)
                  | (Inr images, tried) \<Rightarrow>
                      if images = [] then
                        (Inr (zip_path, Warning, NoUsableImages), calls @ map ImageOpen tried, fs)
                      else
                        let call = \<lparr>first_image = hd images, fp = gif_path, save_all = True,
                                    append_images = tl images, duration = ms_duration,
                                    loop = 0, disposal = 2\<rparr>;
                            calls = calls @ map ImageOpen tried @ [ImageSave call]
                        in case image_save env call of
                             Some e \<Rightarrow> (Inl e, calls, fs)
                           | None \<Rightarrow>
                               (Inr (zip_path, Success, GifPath gif_path), calls,
                                insert gif_path fs))"

text \<open>The body of the \<^verbatim>\<open>try\<close> block of \<^verbatim>\<open>process_zip_file\<close>.\<close>

definition process_zip_body ::
  "'img env \<Rightarrow> path set \<Rightarrow> path
     \<Rightarrow> (py_exception + outcome) \<times> 'img event list \<times> path set" where
  "process_zip_body env fs zip_path =
     (let gif_path = gif_path_of zip_path
      in if gif_path \<in> fs then (Inr (zip_path, Skip, GifExists), [], fs)
         else
           let ms_duration = find_ms_in_filename (os_path_basename zip_path)
           in case mkdtemp env (os_path_dirname zip_path) of
                Inl e \<Rightarrow> (Inl e, [MkTemp (os_path_dirname zip_path)], fs)
              | Inr temp_dir \<Rightarrow>
                  (case process_in_temp_dir env fs zip_path gif_path ms_duration temp_dir of
                     (r, calls, fs') \<Rightarrow> (r, MkTemp (os_path_dirname zip_path) # calls, fs')))"

text \<open>
  \<^verbatim>\<open>process_zip_file\<close>: the body, with \<^verbatim>\<open>except Exception as e: return (zip_path,
  "error", str(e))\<close> around it.
\<close>

definition process_zip_file ::
  "'img env \<Rightarrow> path set \<Rightarrow> path \<Rightarrow> outcome \<times> 'img event list \<times> path set" where
  "process_zip_file env fs zip_path =
     (case process_zip_body env fs zip_path of
        (Inl e, calls, fs') \<Rightarrow> ((zip_path, Error, ExceptionText (exn_str e)), calls, fs')
      | (Inr result, calls, fs') \<Rightarrow> (result, calls, fs'))"

subsection \<open>The batch coordinator\<close>


text \<open>
  \<^verbatim>\<open>
  if max_workers is None:
      max_workers = min(os.cpu_count() or 4, 10, num_files)
  \<close>
  \<^verbatim>\<open>os.cpu_count()\<close> is a count or \<^verbatim>\<open>None\<close>; \<^verbatim>\<open>or\<close> replaces \<^verbatim>\<open>None\<close> and 0 by 4.
\<close>

definition available_parallelism :: "nat option \<Rightarrow> int" where
  "available_parallelism cpu_count =
     (case cpu_count of
        None \<Rightarrow> 4
      | Some n \<Rightarrow> if n = 0 then 4 else int n)"

definition choose_max_workers :: "nat option \<Rightarrow> int option \<Rightarrow> nat \<Rightarrow> int" where
  "choose_max_workers cpu_count max_workers num_files =
     (case max_workers of
        None \<Rightarrow> min (available_parallelism cpu_count) (min 10 (int num_files))
      | Some w \<Rightarrow> w)"






text \<open>
  \<^verbatim>\<open>process_folder\<close>: what it prints, or the \<^verbatim>\<open>ValueError\<close> that
  \<^verbatim>\<open>ThreadPoolExecutor\<close> raises for a worker count that is not positive; and the files
  that exist afterwards.
\<close>

record 'img host =
  walk_folder :: "path \<Rightarrow> (path \<times> path list \<times> path list) list"
  cpu_count :: "nat option"
  worker_env :: "path \<Rightarrow> 'img env"



subsection \<open>Counting results\<close>




subsection \<open>Example worlds\<close>

text \<open>
  An archive \<^verbatim>\<open>d/clip@100ms.zip\<close> holding \<^verbatim>\<open>c.jpg\<close>, \<^verbatim>\<open>a.jpg\<close>, \<^verbatim>\<open>b.jpg\<close> and a text file;
  a decoded image is named by the path it was read from.
\<close>

definition clip_env :: "string env" where
  "clip_env =
     \<lparr>mkdtemp = (\<lambda>dir. Inr (os_path_join dir ''gif_frames_1'')),
      extractall = (\<lambda>zip_path temp_dir. None),
      os_walk = (\<lambda>temp_dir. [(temp_dir, [], [''c.jpg'', ''a.jpg'', ''n.txt'', ''b.jpg''])]),
      image_open = (\<lambda>jpg_file. Inr jpg_file),
      image_save = (\<lambda>call. None)\<rparr>"

text \<open>The same archive, with \<^verbatim>\<open>b.jpg\<close> damaged.\<close>

definition damaged_env :: "string env" where
  "damaged_env =
     clip_env\<lparr>image_open := (\<lambda>jpg_file.
       if jpg_file = ''d/gif_frames_1/b.jpg'' then Inl (Exception ''cannot identify image file'')
       else Inr jpg_file)\<rparr>"

text \<open>An archive holding one image file, which does not decode.\<close>

definition undecodable_env :: "string env" where
  "undecodable_env =
     clip_env\<lparr>os_walk := (\<lambda>temp_dir. [(temp_dir, [], [''a.jpg''])]),
              image_open := (\<lambda>jpg_file. Inl (Exception ''cannot identify image file''))\<rparr>"

text \<open>An archive holding no image file.\<close>

definition no_jpg_env :: "string env" where
  "no_jpg_env = clip_env\<lparr>os_walk := (\<lambda>temp_dir. [(temp_dir, [], [''n.txt''])])\<rparr>"



text \<open>Worlds in which one call to the outside raises.\<close>

definition no_space_env :: "string env" where
  "no_space_env = clip_env\<lparr>mkdtemp := (\<lambda>dir. Inl (Exception ''No space left on device''))\<rparr>"

definition bad_zip_env :: "string env" where
  "bad_zip_env = clip_env\<lparr>extractall := (\<lambda>zip_path temp_dir. Some (Exception ''File is not a zip file''))\<rparr>"

definition read_only_env :: "string env" where
  "read_only_env = clip_env\<lparr>image_save := (\<lambda>call. Some (Exception ''Permission denied''))\<rparr>"




subsection \<open>Running the batch again\<close>



section \<open>Properties\<close>

subsection \<open>The pattern and the search\<close>








lemma has_interval_at_Suc [simp]:
  "has_interval_at (c # cs) (Suc i) ds \<longleftrightarrow> has_interval_at cs i ds"
  by (simp add: has_interval_at_def)




subsection \<open>The parsed integer\<close>






lemma has_interval_at_digits: "has_interval_at s i ds \<Longrightarrow> ds \<noteq> [] \<and> list_all is_digit ds"
  by (simp add: has_interval_at_def)


subsection \<open>What the interval extractor returns\<close>









subsection \<open>The decode loop and the scratch block\<close>

lemma open_images_all_decoded:
  "\<forall>p\<in>set ps. image_open env p = Inr (img p) \<Longrightarrow>
     open_images env ps images tried = (Inr (images @ map img ps), tried @ ps)"
  by (induction ps arbitrary: images tried) simp_all

lemma open_images_first_failure:
  "\<exists>p\<in>set ps. \<exists>e. image_open env p = Inl e \<Longrightarrow>
     \<exists>pre f e post. ps = pre @ f # post \<and> (\<forall>p\<in>set pre. \<exists>i. image_open env p = Inr i)
        \<and> image_open env f = Inl e
        \<and> open_images env ps images tried = (Inl (f, e), tried @ pre @ [f])"
proof (induction ps arbitrary: images tried)
  case Nil
  then show ?case by simp
next
  case (Cons p ps)
  show ?case
  proof (cases "image_open env p")
    case (Inl e)
    then have "p # ps = [] @ p # ps \<and> (\<forall>q\<in>set []. \<exists>i. image_open env q = Inr i)
        \<and> image_open env p = Inl e
        \<and> open_images env (p # ps) images tried = (Inl (p, e), tried @ [] @ [p])"
      by simp
    then show ?thesis by blast
  next
    case (Inr i)
    with Cons.prems have "\<exists>q\<in>set ps. \<exists>e. image_open env q = Inl e" by auto
    from Cons.IH [OF this, of "images @ [i]" "tried @ [p]"]
    obtain pre f e post where ps: "ps = pre @ f # post"
      and ok: "\<forall>q\<in>set pre. \<exists>i. image_open env q = Inr i"
      and f: "image_open env f = Inl e"
      and r: "open_images env ps (images @ [i]) (tried @ [p]) = (Inl (f, e), (tried @ [p]) @ pre @ [f])"
      by blast
    have "p # ps = (p # pre) @ f # post \<and> (\<forall>q\<in>set (p # pre). \<exists>i. image_open env q = Inr i)
        \<and> image_open env f = Inl e
        \<and> open_images env (p # ps) images tried = (Inl (f, e), tried @ (p # pre) @ [f])"
      using ps ok f r Inr by simp
    then show ?thesis by blast
  qed
qed

lemma open_images_length:
  "open_images env ps images tried = (Inr imgs, tr) \<Longrightarrow> length imgs = length images + length ps"
proof (induction ps arbitrary: images tried)
  case Nil
  then show ?case by simp
next
  case (Cons p ps)
  then show ?case by (cases "image_open env p") auto
qed

lemma sort_eq_Nil_iff: "sort xs = [] \<longleftrightarrow> xs = []"
  by (metis length_0_conv length_sort)

lemma process_zip_file_in_temp_dir:
  assumes "gif_path_of z \<notin> fs" and "mkdtemp env (os_path_dirname z) = Inr t"
  shows "process_zip_file env fs z =
     (case process_in_temp_dir env fs z (gif_path_of z) (find_ms_in_filename (os_path_basename z)) t of
        (Inl e, calls, fs') \<Rightarrow>
          ((z, Error, ExceptionText (exn_str e)), MkTemp (os_path_dirname z) # calls, fs')
      | (Inr result, calls, fs') \<Rightarrow> (result, MkTemp (os_path_dirname z) # calls, fs'))"
  using assms
  by (simp add: process_zip_file_def process_zip_body_def Let_def split: prod.splits sum.splits)

lemma process_in_temp_dir_decoded:
  assumes "extractall env z t = None"
    and "find_jpg_files (os_walk env t) \<noteq> []"
    and "\<forall>p\<in>set (find_jpg_files (os_walk env t)). image_open env p = Inr (img p)"
  shows "process_in_temp_dir env fs z g ms t =
     (let jpg_files = sort (find_jpg_files (os_walk env t));
          call = \<lparr>first_image = img (hd jpg_files), fp = g, save_all = True,
                   append_images = map img (tl jpg_files), duration = ms,
                   loop = 0, disposal = 2\<rparr>;
          calls = [ExtractAll z t, Walk t] @ map ImageOpen jpg_files @ [ImageSave call]
      in case image_save env call of
           Some e \<Rightarrow> (Inl e, calls, fs)
         | None \<Rightarrow> (Inr (z, Success, GifPath g), calls, insert g fs))"
proof -
  let ?js = "sort (find_jpg_files (os_walk env t))"
  have ne: "?js \<noteq> []" using assms(2) by (simp add: sort_eq_Nil_iff)
  have "\<forall>p\<in>set ?js. image_open env p = Inr (img p)" using assms(3) by simp
  then have o: "open_images env ?js [] [] = (Inr (map img ?js), ?js)"
    using open_images_all_decoded [of ?js env img "[]" "[]"] by simp
  have h: "hd (map img ?js) = img (hd ?js)" using ne by (simp add: hd_map)
  have tl: "tl (map img ?js) = map img (tl ?js)" by (simp add: map_tl)
  show ?thesis
    using assms(1,2) ne
    by (simp add: process_in_temp_dir_def Let_def o h tl split: option.splits)
qed

lemma process_in_temp_dir_failure:
  assumes "extractall env z t = None"
    and "sort (find_jpg_files (os_walk env t)) = pre @ f # post"
    and "open_images env (sort (find_jpg_files (os_walk env t))) [] [] = (Inl (f, e), pre @ [f])"
  shows "process_in_temp_dir env fs z g ms t =
     (Inr (z, Error, CannotProcessImage f (exn_str e)),
      [ExtractAll z t, Walk t] @ map ImageOpen (pre @ [f]), fs)"
proof -
  have "find_jpg_files (os_walk env t) \<noteq> []"
  proof
    assume "find_jpg_files (os_walk env t) = []"
    with assms(2) show False by simp
  qed
  then show ?thesis
    using assms(1,3) by (simp add: process_in_temp_dir_def Let_def)
qed

subsection \<open>The encode call\<close>

text \<open>
  Claim C3. For every archive that is processed (no output file yet, scratch directory
  made, archive extracted) and whose image files all decode, the \<^verbatim>\<open>save\<close> call gets the
  frames sorted ascending by path string: the image of the first path of the sorted list
  is the one \<^verbatim>\<open>save\<close> is called on, the images of the remaining paths are appended in
  that order, the loop count is 0, the duration is the one extracted from the archive's
  base name, and the disposal method is 2. The calls made are the scratch directory,
  the extraction, the walk, one decode per path in sorted order, and that one \<^verbatim>\<open>save\<close>.
\<close>

theorem encode_call_sorted_frames:
  assumes "gif_path_of z \<notin> fs"
    and "mkdtemp env (os_path_dirname z) = Inr t"
    and "extractall env z t = None"
    and "find_jpg_files (os_walk env t) \<noteq> []"
    and "\<forall>p\<in>set (find_jpg_files (os_walk env t)). image_open env p = Inr (img p)"
  shows "sorted (sort (find_jpg_files (os_walk env t)))
    \<and> mset (sort (find_jpg_files (os_walk env t))) = mset (find_jpg_files (os_walk env t))
    \<and> fst (snd (process_zip_file env fs z)) =
        [MkTemp (os_path_dirname z), ExtractAll z t, Walk t]
        @ map ImageOpen (sort (find_jpg_files (os_walk env t)))
        @ [ImageSave \<lparr>first_image = img (hd (sort (find_jpg_files (os_walk env t)))),
                      fp = gif_path_of z, save_all = True,
                      append_images = map img (tl (sort (find_jpg_files (os_walk env t)))),
                      duration = find_ms_in_filename (os_path_basename z),
                      loop = 0, disposal = 2\<rparr>]"
proof -
  have "fst (snd (process_zip_file env fs z)) =
        [MkTemp (os_path_dirname z), ExtractAll z t, Walk t]
        @ map ImageOpen (sort (find_jpg_files (os_walk env t)))
        @ [ImageSave \<lparr>first_image = img (hd (sort (find_jpg_files (os_walk env t)))),
                      fp = gif_path_of z, save_all = True,
                      append_images = map img (tl (sort (find_jpg_files (os_walk env t)))),
                      duration = find_ms_in_filename (os_path_basename z),
                      loop = 0, disposal = 2\<rparr>]"
    unfolding process_zip_file_in_temp_dir [OF assms(1,2)]
      process_in_temp_dir_decoded [OF assms(3,4,5)]
    by (simp add: Let_def split: option.splits)
  then show ?thesis by simp
qed

text \<open>The example archive \<^verbatim>\<open>d/clip@100ms.zip\<close>, evaluated.\<close>

lemma clip_jpg_files:
  "find_jpg_files (os_walk clip_env ''d/gif_frames_1'') =
     [''d/gif_frames_1/c.jpg'', ''d/gif_frames_1/a.jpg'', ''d/gif_frames_1/b.jpg'']"
  by code_simp

lemma clip_sorted:
  "sort [''d/gif_frames_1/c.jpg'', ''d/gif_frames_1/a.jpg'', ''d/gif_frames_1/b.jpg''] =
     [''d/gif_frames_1/a.jpg'', ''d/gif_frames_1/b.jpg'', ''d/gif_frames_1/c.jpg'']"
  by code_simp

lemma clip_paths:
  "gif_path_of ''d/clip@100ms.zip'' = ''d/clip@100ms.gif''"
  "os_path_dirname ''d/clip@100ms.zip'' = ''d''"
  "os_path_basename ''d/clip@100ms.zip'' = ''clip@100ms.zip''"
  "find_ms_in_filename ''clip@100ms.zip'' = 100"
  by code_simp+

theorem encode_call_sorted_frames_witness:
  "fst (snd (process_zip_file clip_env {} ''d/clip@100ms.zip'')) =
     [MkTemp ''d'', ExtractAll ''d/clip@100ms.zip'' ''d/gif_frames_1'', Walk ''d/gif_frames_1'',
      ImageOpen ''d/gif_frames_1/a.jpg'', ImageOpen ''d/gif_frames_1/b.jpg'',
      ImageOpen ''d/gif_frames_1/c.jpg'',
      ImageSave \<lparr>first_image = ''d/gif_frames_1/a.jpg'', fp = ''d/clip@100ms.gif'',
                  save_all = True,
                  append_images = [''d/gif_frames_1/b.jpg'', ''d/gif_frames_1/c.jpg''],
                  duration = 100, loop = 0, disposal = 2\<rparr>]"
proof -
  have a: "gif_path_of ''d/clip@100ms.zip'' \<notin> {}" by simp
  have b: "mkdtemp clip_env (os_path_dirname ''d/clip@100ms.zip'') = Inr ''d/gif_frames_1''"
    by code_simp
  have c: "extractall clip_env ''d/clip@100ms.zip'' ''d/gif_frames_1'' = None"
    by (simp add: clip_env_def)
  have d: "find_jpg_files (os_walk clip_env ''d/gif_frames_1'') \<noteq> []"
    by (simp add: clip_jpg_files)
  have e: "\<forall>p\<in>set (find_jpg_files (os_walk clip_env ''d/gif_frames_1'')). image_open clip_env p = Inr (id p)"
    by (simp add: clip_env_def)
  show ?thesis
    using encode_call_sorted_frames [OF a b c d e]
    by (simp add: clip_jpg_files clip_sorted clip_paths)
qed

lemma open_images_up_to_failure:
  "\<forall>p\<in>set pre. \<exists>i. image_open env p = Inr i \<Longrightarrow> image_open env f = Inl e \<Longrightarrow>
     open_images env (pre @ f # post) images tried = (Inl (f, e), tried @ pre @ [f])"
  by (induction pre arbitrary: images tried) auto

lemma process_in_temp_dir_path:
  "process_in_temp_dir env fs z g ms t = (Inr r, calls, fs') \<Longrightarrow> fst r = z"
  by (auto simp: process_in_temp_dir_def Let_def
      split: option.splits if_splits prod.splits sum.splits)

lemma process_zip_file_path: "fst (fst (process_zip_file env fs z)) = z"
proof (cases "gif_path_of z \<in> fs")
  case True
  then show ?thesis
    by (simp add: process_zip_file_def process_zip_body_def)
next
  case False
  show ?thesis
  proof (cases "mkdtemp env (os_path_dirname z)")
    case (Inl e)
    with False show ?thesis
      by (simp add: process_zip_file_def process_zip_body_def Let_def)
  next
    case (Inr t)
    obtain r calls fs' where p:
      "process_in_temp_dir env fs z (gif_path_of z) (find_ms_in_filename (os_path_basename z)) t
         = (r, calls, fs')"
      by (metis prod_cases3)
    show ?thesis
      unfolding process_zip_file_in_temp_dir [OF False Inr] p
      using process_in_temp_dir_path [of env fs z _ _ t _ calls fs'] p
      by (cases r) auto
  qed
qed

lemma process_in_temp_dir_not_warning:
  assumes "extractall env z t = None" and "find_jpg_files (os_walk env t) \<noteq> []"
    and "process_in_temp_dir env fs z g ms t = (Inr (p, st, m), calls, fs')"
  shows "st \<noteq> Warning"
proof -
  let ?js = "sort (find_jpg_files (os_walk env t))"
  obtain r tr where o: "open_images env ?js [] [] = (r, tr)" by (cases "open_images env ?js [] []")
  show ?thesis
  proof (cases r)
    case (Inl fe)
    then show ?thesis
      using assms o by (cases fe) (auto simp: process_in_temp_dir_def Let_def)
  next
    case (Inr images)
    with o have "length images = length ?js"
      using open_images_length [of env ?js "[]" "[]" images tr] by simp
    then have "images \<noteq> []" using assms(2) by auto
    then show ?thesis
      using assms o Inr
      by (auto simp: process_in_temp_dir_def Let_def split: option.splits)
  qed
qed

subsection \<open>Failures become error results\<close>

text \<open>
  Claim C1. For every archive path and every outside world, \<^verbatim>\<open>process_zip_file\<close> returns
  a result tuple for that path. Whenever the body of its \<^verbatim>\<open>try\<close> block raises, the result
  is an error that carries the text of the exception, and nothing is raised further:
  so it is when the scratch directory cannot be made, when the archive cannot be
  extracted, and when the \<^verbatim>\<open>save\<close> call fails. An image that does not decode gives an
  error result that names the file.
\<close>

theorem process_zip_file_catches:
  "fst (fst (process_zip_file env fs z)) = z
   \<and> (\<forall>e calls fs'. process_zip_body env fs z = (Inl e, calls, fs') \<longrightarrow>
         process_zip_file env fs z = ((z, Error, ExceptionText (exn_str e)), calls, fs'))
   \<and> (gif_path_of z \<notin> fs \<and> mkdtemp env (os_path_dirname z) = Inl e \<longrightarrow>
         process_zip_file env fs z =
           ((z, Error, ExceptionText (exn_str e)), [MkTemp (os_path_dirname z)], fs))
   \<and> (gif_path_of z \<notin> fs \<and> mkdtemp env (os_path_dirname z) = Inr t
         \<and> extractall env z t = Some e \<longrightarrow>
         process_zip_file env fs z =
           ((z, Error, ExceptionText (exn_str e)),
            [MkTemp (os_path_dirname z), ExtractAll z t], fs))
   \<and> (gif_path_of z \<notin> fs \<and> mkdtemp env (os_path_dirname z) = Inr t
         \<and> extractall env z t = None
         \<and> sort (find_jpg_files (os_walk env t)) = pre @ f # post
         \<and> (\<forall>p\<in>set pre. \<exists>i. image_open env p = Inr i) \<and> image_open env f = Inl e \<longrightarrow>
         process_zip_file env fs z =
           ((z, Error, CannotProcessImage f (exn_str e)),
            [MkTemp (os_path_dirname z), ExtractAll z t, Walk t] @ map ImageOpen (pre @ [f]), fs))
   \<and> (gif_path_of z \<notin> fs \<and> mkdtemp env (os_path_dirname z) = Inr t
         \<and> extractall env z t = None
         \<and> find_jpg_files (os_walk env t) \<noteq> []
         \<and> (\<forall>p\<in>set (find_jpg_files (os_walk env t)). image_open env p = Inr (img p))
         \<and> image_save env
             \<lparr>first_image = img (hd (sort (find_jpg_files (os_walk env t)))),
              fp = gif_path_of z, save_all = True,
              append_images = map img (tl (sort (find_jpg_files (os_walk env t)))),
              duration = find_ms_in_filename (os_path_basename z),
              loop = 0, disposal = 2\<rparr> = Some e \<longrightarrow>
         fst (process_zip_file env fs z) = (z, Error, ExceptionText (exn_str e)))"
proof (intro conjI impI allI)
  show "fst (fst (process_zip_file env fs z)) = z"
    by (rule process_zip_file_path)
next
  fix e calls fs'
  assume "process_zip_body env fs z = (Inl e, calls, fs')"
  then show "process_zip_file env fs z = ((z, Error, ExceptionText (exn_str e)), calls, fs')"
    by (simp add: process_zip_file_def)
next
  assume "gif_path_of z \<notin> fs \<and> mkdtemp env (os_path_dirname z) = Inl e"
  then show "process_zip_file env fs z =
           ((z, Error, ExceptionText (exn_str e)), [MkTemp (os_path_dirname z)], fs)"
    by (simp add: process_zip_file_def process_zip_body_def Let_def)
next
  assume a: "gif_path_of z \<notin> fs \<and> mkdtemp env (os_path_dirname z) = Inr t
         \<and> extractall env z t = Some e"
  then have g: "gif_path_of z \<notin> fs" and m: "mkdtemp env (os_path_dirname z) = Inr t"
    and x: "extractall env z t = Some e" by simp_all
  show "process_zip_file env fs z =
           ((z, Error, ExceptionText (exn_str e)),
            [MkTemp (os_path_dirname z), ExtractAll z t], fs)"
    unfolding process_zip_file_in_temp_dir [OF g m]
    by (simp add: process_in_temp_dir_def x)
next
  assume a: "gif_path_of z \<notin> fs \<and> mkdtemp env (os_path_dirname z) = Inr t
         \<and> extractall env z t = None
         \<and> sort (find_jpg_files (os_walk env t)) = pre @ f # post
         \<and> (\<forall>p\<in>set pre. \<exists>i. image_open env p = Inr i) \<and> image_open env f = Inl e"
  then have g: "gif_path_of z \<notin> fs" and m: "mkdtemp env (os_path_dirname z) = Inr t"
    and x: "extractall env z t = None"
    and s: "sort (find_jpg_files (os_walk env t)) = pre @ f # post"
    and ok: "\<forall>p\<in>set pre. \<exists>i. image_open env p = Inr i" and bad: "image_open env f = Inl e"
    by simp_all
  have o: "open_images env (sort (find_jpg_files (os_walk env t))) [] [] = (Inl (f, e), pre @ [f])"
    unfolding s using open_images_up_to_failure [OF ok bad, of post "[]" "[]"] by simp
  show "process_zip_file env fs z =
           ((z, Error, CannotProcessImage f (exn_str e)),
            [MkTemp (os_path_dirname z), ExtractAll z t, Walk t] @ map ImageOpen (pre @ [f]), fs)"
    unfolding process_zip_file_in_temp_dir [OF g m] process_in_temp_dir_failure [OF x s o]
    by simp
next
  assume a: "gif_path_of z \<notin> fs \<and> mkdtemp env (os_path_dirname z) = Inr t
         \<and> extractall env z t = None
         \<and> find_jpg_files (os_walk env t) \<noteq> []
         \<and> (\<forall>p\<in>set (find_jpg_files (os_walk env t)). image_open env p = Inr (img p))
         \<and> image_save env
             \<lparr>first_image = img (hd (sort (find_jpg_files (os_walk env t)))),
              fp = gif_path_of z, save_all = True,
              append_images = map img (tl (sort (find_jpg_files (os_walk env t)))),
              duration = find_ms_in_filename (os_path_basename z),
              loop = 0, disposal = 2\<rparr> = Some e"
  then have g: "gif_path_of z \<notin> fs" and m: "mkdtemp env (os_path_dirname z) = Inr t"
    and x: "extractall env z t = None"
    and ne: "find_jpg_files (os_walk env t) \<noteq> []"
    and ok: "\<forall>p\<in>set (find_jpg_files (os_walk env t)). image_open env p = Inr (img p)"
    and sv: "image_save env
             \<lparr>first_image = img (hd (sort (find_jpg_files (os_walk env t)))),
              fp = gif_path_of z, save_all = True,
              append_images = map img (tl (sort (find_jpg_files (os_walk env t)))),
              duration = find_ms_in_filename (os_path_basename z),
              loop = 0, disposal = 2\<rparr> = Some e"
    by simp_all
  show "fst (process_zip_file env fs z) = (z, Error, ExceptionText (exn_str e))"
    unfolding process_zip_file_in_temp_dir [OF g m] process_in_temp_dir_decoded [OF x ne ok]
    by (simp add: Let_def sv)
qed

subsection \<open>Warnings\<close>

text \<open>
  Claim C5, as amended. For every archive that is processed and in which no image file
  is found after extraction, the result is a warning, not an error, and no output file
  is created. When image files were found the result is never a warning: if none of
  them decodes, the result is an error that names the first file of the sorted order,
  and again no output file is created.
\<close>

theorem warning_without_image_files:
  assumes "gif_path_of z \<notin> fs"
    and "mkdtemp env (os_path_dirname z) = Inr t"
    and "extractall env z t = None"
  shows "(find_jpg_files (os_walk env t) = [] \<longrightarrow>
            process_zip_file env fs z =
              ((z, Warning, NoJpgFound), [MkTemp (os_path_dirname z), ExtractAll z t, Walk t], fs))
    \<and> (find_jpg_files (os_walk env t) \<noteq> [] \<longrightarrow>
            fst (snd (fst (process_zip_file env fs z))) \<noteq> Warning)
    \<and> (find_jpg_files (os_walk env t) \<noteq> []
          \<and> (\<forall>p\<in>set (find_jpg_files (os_walk env t)). image_open env p = Inl (err p)) \<longrightarrow>
            process_zip_file env fs z =
              ((z, Error, CannotProcessImage (hd (sort (find_jpg_files (os_walk env t))))
                    (exn_str (err (hd (sort (find_jpg_files (os_walk env t))))))),
               [MkTemp (os_path_dirname z), ExtractAll z t, Walk t,
                ImageOpen (hd (sort (find_jpg_files (os_walk env t))))], fs))"
proof (intro conjI impI)
  assume "find_jpg_files (os_walk env t) = []"
  then show "process_zip_file env fs z =
      ((z, Warning, NoJpgFound), [MkTemp (os_path_dirname z), ExtractAll z t, Walk t], fs)"
    unfolding process_zip_file_in_temp_dir [OF assms(1,2)]
    by (simp add: process_in_temp_dir_def assms(3))
next
  assume ne: "find_jpg_files (os_walk env t) \<noteq> []"
  obtain r calls fs' where p:
    "process_in_temp_dir env fs z (gif_path_of z) (find_ms_in_filename (os_path_basename z)) t
       = (r, calls, fs')"
    by (metis prod_cases3)
  show "fst (snd (fst (process_zip_file env fs z))) \<noteq> Warning"
  proof (cases r)
    case (Inl e)
    then show ?thesis
      unfolding process_zip_file_in_temp_dir [OF assms(1,2)] p by simp
  next
    case (Inr res)
    obtain q st m where res: "res = (q, st, m)" by (metis prod_cases3)
    have "st \<noteq> Warning"
      using process_in_temp_dir_not_warning [OF assms(3) ne] p Inr res by blast
    then show ?thesis
      unfolding process_zip_file_in_temp_dir [OF assms(1,2)] p using Inr res by simp
  qed
next
  let ?js = "sort (find_jpg_files (os_walk env t))"
  assume a: "find_jpg_files (os_walk env t) \<noteq> []
          \<and> (\<forall>p\<in>set (find_jpg_files (os_walk env t)). image_open env p = Inl (err p))"
  then have ne: "?js \<noteq> []" by (simp add: sort_eq_Nil_iff)
  then have s: "?js = [] @ hd ?js # tl ?js" by simp
  have "hd ?js \<in> set ?js" using ne by (rule hd_in_set)
  then have bad: "image_open env (hd ?js) = Inl (err (hd ?js))" using a by simp
  have o: "open_images env ?js [] [] = (Inl (hd ?js, err (hd ?js)), [] @ [hd ?js])"
    using open_images_up_to_failure [of "[]" env "hd ?js" "err (hd ?js)" "tl ?js" "[]" "[]"] bad ne
    by simp
  show "process_zip_file env fs z =
              ((z, Error, CannotProcessImage (hd ?js) (exn_str (err (hd ?js)))),
               [MkTemp (os_path_dirname z), ExtractAll z t, Walk t, ImageOpen (hd ?js)], fs)"
    unfolding process_zip_file_in_temp_dir [OF assms(1,2)]
      process_in_temp_dir_failure [OF assms(3) s o]
    by simp
qed

subsection \<open>A file that does not decode\<close>

text \<open>
  Claim C6. For every archive that is processed and in which at least one of the image
  files found fails to decode, the result is an error whose message names the failing
  file, the first one that fails in sorted order. The files before it were decoded, the
  ones after it are not opened, \<^verbatim>\<open>save\<close> is not called and no file is created: no part
  of the frames is returned or encoded.
\<close>

theorem decode_failure_aborts:
  assumes "gif_path_of z \<notin> fs"
    and "mkdtemp env (os_path_dirname z) = Inr t"
    and "extractall env z t = None"
    and "\<exists>p\<in>set (find_jpg_files (os_walk env t)). \<exists>e. image_open env p = Inl e"
  shows "\<exists>pre f e post.
      sort (find_jpg_files (os_walk env t)) = pre @ f # post
    \<and> (\<forall>p\<in>set pre. \<exists>i. image_open env p = Inr i)
    \<and> image_open env f = Inl e
    \<and> process_zip_file env fs z =
        ((z, Error, CannotProcessImage f (exn_str e)),
         [MkTemp (os_path_dirname z), ExtractAll z t, Walk t] @ map ImageOpen (pre @ [f]), fs)"
proof -
  let ?js = "sort (find_jpg_files (os_walk env t))"
  have "\<exists>p\<in>set ?js. \<exists>e. image_open env p = Inl e" using assms(4) by simp
  from open_images_first_failure [OF this, of "[]" "[]"]
  obtain pre f e post where s: "?js = pre @ f # post"
    and ok: "\<forall>p\<in>set pre. \<exists>i. image_open env p = Inr i"
    and bad: "image_open env f = Inl e"
    and o: "open_images env ?js [] [] = (Inl (f, e), pre @ [f])"
    by auto
  have "process_zip_file env fs z =
        ((z, Error, CannotProcessImage f (exn_str e)),
         [MkTemp (os_path_dirname z), ExtractAll z t, Walk t] @ map ImageOpen (pre @ [f]), fs)"
    unfolding process_zip_file_in_temp_dir [OF assms(1,2)]
      process_in_temp_dir_failure [OF assms(3) s o]
    by simp
  with s ok bad show ?thesis by blast
qed

subsection \<open>The example worlds, evaluated\<close>

lemma clip_mkdtemp:
  "mkdtemp clip_env ''d'' = Inr ''d/gif_frames_1''"
  "mkdtemp bad_zip_env ''d'' = Inr ''d/gif_frames_1''"
  "mkdtemp damaged_env ''d'' = Inr ''d/gif_frames_1''"
  "mkdtemp read_only_env ''d'' = Inr ''d/gif_frames_1''"
  "mkdtemp no_jpg_env ''d'' = Inr ''d/gif_frames_1''"
  "mkdtemp undecodable_env ''d'' = Inr ''d/gif_frames_1''"
  by code_simp+

lemma example_jpg_files:
  "find_jpg_files (os_walk damaged_env ''d/gif_frames_1'') =
     [''d/gif_frames_1/c.jpg'', ''d/gif_frames_1/a.jpg'', ''d/gif_frames_1/b.jpg'']"
  "find_jpg_files (os_walk read_only_env ''d/gif_frames_1'') =
     [''d/gif_frames_1/c.jpg'', ''d/gif_frames_1/a.jpg'', ''d/gif_frames_1/b.jpg'']"
  "find_jpg_files (os_walk no_jpg_env ''d/gif_frames_1'') = []"
  "find_jpg_files (os_walk undecodable_env ''d/gif_frames_1'') = [''d/gif_frames_1/a.jpg'']"
  by code_simp+

theorem process_zip_file_catches_witness:
  "process_zip_file no_space_env {} ''d/clip@100ms.zip'' =
     ((''d/clip@100ms.zip'', Error, ExceptionText ''No space left on device''), [MkTemp ''d''], {})
   \<and> process_zip_file bad_zip_env {} ''d/clip@100ms.zip'' =
     ((''d/clip@100ms.zip'', Error, ExceptionText ''File is not a zip file''),
      [MkTemp ''d'', ExtractAll ''d/clip@100ms.zip'' ''d/gif_frames_1''], {})
   \<and> process_zip_file damaged_env {} ''d/clip@100ms.zip'' =
     ((''d/clip@100ms.zip'', Error,
       CannotProcessImage ''d/gif_frames_1/b.jpg'' ''cannot identify image file''),
      [MkTemp ''d'', ExtractAll ''d/clip@100ms.zip'' ''d/gif_frames_1'', Walk ''d/gif_frames_1'',
       ImageOpen ''d/gif_frames_1/a.jpg'', ImageOpen ''d/gif_frames_1/b.jpg''], {})
   \<and> fst (process_zip_file read_only_env {} ''d/clip@100ms.zip'') =
     (''d/clip@100ms.zip'', Error, ExceptionText ''Permission denied'')"
proof -
  have body: "process_zip_body no_space_env {} ''d/clip@100ms.zip'' =
      (Inl (Exception ''No space left on device''), [MkTemp ''d''], {})"
    by code_simp
  have m0: "mkdtemp no_space_env ''d'' = Inl (Exception ''No space left on device'')"
    by code_simp
  have x1: "extractall bad_zip_env ''d/clip@100ms.zip'' ''d/gif_frames_1'' =
      Some (Exception ''File is not a zip file'')"
    by code_simp
  have x2: "extractall damaged_env ''d/clip@100ms.zip'' ''d/gif_frames_1'' = None"
    "extractall read_only_env ''d/clip@100ms.zip'' ''d/gif_frames_1'' = None"
    by code_simp+
  have s2: "sort (find_jpg_files (os_walk damaged_env ''d/gif_frames_1'')) =
      [''d/gif_frames_1/a.jpg''] @ ''d/gif_frames_1/b.jpg'' # [''d/gif_frames_1/c.jpg'']"
    by (simp add: example_jpg_files clip_sorted)
  have o2: "\<forall>p\<in>set [''d/gif_frames_1/a.jpg'']. \<exists>i. image_open damaged_env p = Inr i"
    by (simp add: damaged_env_def clip_env_def)
  have b2: "image_open damaged_env ''d/gif_frames_1/b.jpg'' = Inl (Exception ''cannot identify image file'')"
    by (simp add: damaged_env_def clip_env_def)
  have o3: "\<forall>p\<in>set (find_jpg_files (os_walk read_only_env ''d/gif_frames_1'')).
      image_open read_only_env p = Inr (id p)"
    by (simp add: read_only_env_def clip_env_def)
  have v3: "image_save read_only_env c = Some (Exception ''Permission denied'')" for c
    by (simp add: read_only_env_def clip_env_def)
  show ?thesis
    using body m0 x1 x2 s2 o2 b2 o3 v3
      process_zip_file_catches [where env = no_space_env and fs = "{}"
        and z = "''d/clip@100ms.zip''" and e = "Exception ''No space left on device''"]
      process_zip_file_catches [where env = bad_zip_env and fs = "{}"
        and z = "''d/clip@100ms.zip''" and e = "Exception ''File is not a zip file''"
        and t = "''d/gif_frames_1''"]
      process_zip_file_catches [where env = damaged_env and fs = "{}"
        and z = "''d/clip@100ms.zip''" and e = "Exception ''cannot identify image file''"
        and t = "''d/gif_frames_1''" and pre = "[''d/gif_frames_1/a.jpg'']"
        and f = "''d/gif_frames_1/b.jpg''" and post = "[''d/gif_frames_1/c.jpg'']"]
      process_zip_file_catches [where env = read_only_env and fs = "{}"
        and z = "''d/clip@100ms.zip''" and e = "Exception ''Permission denied''"
        and t = "''d/gif_frames_1''" and img = id]
    by (simp add: clip_paths clip_mkdtemp example_jpg_files)
qed

theorem warning_without_image_files_witness:
  "process_zip_file no_jpg_env {} ''d/clip@100ms.zip'' =
     ((''d/clip@100ms.zip'', Warning, NoJpgFound),
      [MkTemp ''d'', ExtractAll ''d/clip@100ms.zip'' ''d/gif_frames_1'', Walk ''d/gif_frames_1''], {})
   \<and> fst (snd (fst (process_zip_file undecodable_env {} ''d/clip@100ms.zip''))) \<noteq> Warning
   \<and> process_zip_file undecodable_env {} ''d/clip@100ms.zip'' =
     ((''d/clip@100ms.zip'', Error,
       CannotProcessImage ''d/gif_frames_1/a.jpg'' ''cannot identify image file''),
      [MkTemp ''d'', ExtractAll ''d/clip@100ms.zip'' ''d/gif_frames_1'', Walk ''d/gif_frames_1'',
       ImageOpen ''d/gif_frames_1/a.jpg''], {})"
proof -
  have g: "gif_path_of ''d/clip@100ms.zip'' \<notin> {}" by simp
  have m1: "mkdtemp no_jpg_env (os_path_dirname ''d/clip@100ms.zip'') = Inr ''d/gif_frames_1''"
    and m2: "mkdtemp undecodable_env (os_path_dirname ''d/clip@100ms.zip'') = Inr ''d/gif_frames_1''"
    by (simp_all add: clip_paths clip_mkdtemp)
  have x1: "extractall no_jpg_env ''d/clip@100ms.zip'' ''d/gif_frames_1'' = None"
    and x2: "extractall undecodable_env ''d/clip@100ms.zip'' ''d/gif_frames_1'' = None"
    by code_simp+
  have bad: "\<forall>p\<in>set (find_jpg_files (os_walk undecodable_env ''d/gif_frames_1'')).
      image_open undecodable_env p = Inl ((\<lambda>p. Exception ''cannot identify image file'') p)"
    by (simp add: undecodable_env_def clip_env_def)
  show ?thesis
    using bad warning_without_image_files [OF g m1 x1]
      warning_without_image_files [OF g m2 x2, of "\<lambda>p. Exception ''cannot identify image file''"]
    by (simp add: clip_paths example_jpg_files)
qed

text \<open>
  An archive with one image file, which does not decode: image files were found and
  none was decoded, and the result is an error, not a warning.
\<close>

theorem no_decoded_image_is_error:
  "find_jpg_files (os_walk undecodable_env ''d/gif_frames_1'') = [''d/gif_frames_1/a.jpg'']
   \<and> image_open undecodable_env ''d/gif_frames_1/a.jpg'' = Inl (Exception ''cannot identify image file'')
   \<and> fst (process_zip_file undecodable_env {} ''d/clip@100ms.zip'') =
       (''d/clip@100ms.zip'', Error,
        CannotProcessImage ''d/gif_frames_1/a.jpg'' ''cannot identify image file'')"
  by code_simp

theorem decode_failure_aborts_witness:
  "process_zip_file damaged_env {} ''d/clip@100ms.zip'' =
     ((''d/clip@100ms.zip'', Error,
       CannotProcessImage ''d/gif_frames_1/b.jpg'' ''cannot identify image file''),
      [MkTemp ''d'', ExtractAll ''d/clip@100ms.zip'' ''d/gif_frames_1'', Walk ''d/gif_frames_1'',
       ImageOpen ''d/gif_frames_1/a.jpg'', ImageOpen ''d/gif_frames_1/b.jpg''], {})"
proof -
  have g: "gif_path_of ''d/clip@100ms.zip'' \<notin> {}" by simp
  have m: "mkdtemp damaged_env (os_path_dirname ''d/clip@100ms.zip'') = Inr ''d/gif_frames_1''"
    by (simp add: clip_paths clip_mkdtemp)
  have x: "extractall damaged_env ''d/clip@100ms.zip'' ''d/gif_frames_1'' = None"
    by code_simp
  have d: "\<exists>p\<in>set (find_jpg_files (os_walk damaged_env ''d/gif_frames_1'')).
      \<exists>e. image_open damaged_env p = Inl e"
    unfolding example_jpg_files by (simp add: damaged_env_def clip_env_def)
  from decode_failure_aborts [OF g m x d]
  obtain pre f e post where
    s: "sort (find_jpg_files (os_walk damaged_env ''d/gif_frames_1'')) = pre @ f # post"
    and bad: "image_open damaged_env f = Inl e"
    and r: "process_zip_file damaged_env {} ''d/clip@100ms.zip'' =
        ((''d/clip@100ms.zip'', Error, CannotProcessImage f (exn_str e)),
         [MkTemp (os_path_dirname ''d/clip@100ms.zip''),
          ExtractAll ''d/clip@100ms.zip'' ''d/gif_frames_1'', Walk ''d/gif_frames_1'']
         @ map ImageOpen (pre @ [f]), {})"
    by blast
  from bad have f: "f = ''d/gif_frames_1/b.jpg''" and e: "e = Exception ''cannot identify image file''"
    by (auto simp: damaged_env_def clip_env_def split: if_splits)
  from s f have "pre = [''d/gif_frames_1/a.jpg'']"
    by (auto simp: example_jpg_files clip_sorted Cons_eq_append_conv)
  with r f e show ?thesis by (simp add: clip_paths)
qed

subsection \<open>The size of the pool\<close>

text \<open>
  Claim C7, as amended. For every non-empty list of archives and no worker count given,
  the pool size is the least of the available parallelism (\<^verbatim>\<open>os.cpu_count() or 4\<close>), 10
  and the number of archives, and it is at least 1. It never exceeds 10 nor the number
  of archives; it equals the number of archives when that number is below the available
  parallelism and at most 10, and it is 10 when both the available parallelism and the
  number of archives are at least 10.
\<close>

theorem choose_max_workers_bounds:
  assumes "0 < num_files"
  shows "choose_max_workers cpu None num_files =
           min (available_parallelism cpu) (min 10 (int num_files))
    \<and> 1 \<le> choose_max_workers cpu None num_files
    \<and> choose_max_workers cpu None num_files \<le> 10
    \<and> choose_max_workers cpu None num_files \<le> int num_files
    \<and> (int num_files < available_parallelism cpu \<and> num_files \<le> 10 \<longrightarrow>
          choose_max_workers cpu None num_files = int num_files)
    \<and> (10 \<le> available_parallelism cpu \<and> 10 \<le> num_files \<longrightarrow>
          choose_max_workers cpu None num_files = 10)"
proof -
  have a: "1 \<le> available_parallelism cpu"
    by (cases cpu) (auto simp: available_parallelism_def)
  have n: "1 \<le> int num_files" using assms by simp
  show ?thesis
    using a n by (auto simp: choose_max_workers_def)
qed

theorem choose_max_workers_bounds_witness:
  "choose_max_workers (Some 8) None 3 = 3
   \<and> choose_max_workers (Some 16) None 50 = 10
   \<and> choose_max_workers None None 50 = 4"
proof -
  have a: "(0::nat) < 3" and b: "(0::nat) < 50" by simp_all
  show ?thesis
    using choose_max_workers_bounds [OF a, of "Some 8"]
      choose_max_workers_bounds [OF b, of "Some 16"]
      choose_max_workers_bounds [OF b, of None]
    by (simp add: available_parallelism_def)
qed

text \<open>
  Fifteen archives on a machine with 32 processors: the number of archives is below the
  available parallelism, and the pool has 10 workers, not 15.
\<close>

theorem choose_max_workers_capped:
  "int 15 < available_parallelism (Some 32) \<and> choose_max_workers (Some 32) None 15 = 10
   \<and> choose_max_workers (Some 32) None 15 \<noteq> int 15"
  by (simp add: available_parallelism_def choose_max_workers_def)

subsection \<open>The tally\<close>











subsection \<open>An output that exists already\<close>














end
